theory Spec2Isabelle
  imports Main "HOL-Library.AList"
begin

section \<open>Policy managers of maro.rl.training.policy_manager\<close>

text \<open>
  A shallow embedding of \<^verbatim>\<open>maro/rl/training/policy_manager/policy_manager.py\<close>:
  the abstract manager, and its local, multi-process and multi-node subclasses.
  Python dictionaries are association lists in insertion order with one entry per key
  (\<open>AList.update\<close> overwrites in place, as a dict assignment does), the \<open>updated\<close>
  set is a set of names, exceptions are values, and what a manager does beyond its own
  fields (pipes, processes, messages) is returned as a list of effects.
\<close>

subsection \<open>Errors and results\<close>

text \<open>
  The exceptions of the module: \<open>ValueError\<close> is raised by the constructor,
  \<open>KeyError\<close> by a dictionary lookup, \<open>AttributeError\<close> by a call of a method a
  class does not have. No function of the module raises \<open>ConfigurationError\<close>; the
  constructor is there for statements about the error kind.
\<close>

datatype error = ValueError | KeyError | AttributeError | ConfigurationError

text \<open>
  A method mutates the manager in place, so an exception leaves the manager as it was
  when the exception was raised: \<open>Raised\<close> carries that state.
\<close>

datatype 'm result = Returned 'm | Raised error 'm

fun state_of :: "'m result \<Rightarrow> 'm" where
  "state_of (Returned m) = m"
| "state_of (Raised e m) = m"

fun raised :: "'m result \<Rightarrow> error option" where
  "raised (Returned m) = None"
| "raised (Raised e m) = Some e"

subsection \<open>Dictionaries\<close>

definition dict_get :: "('k \<times> 'v) list \<Rightarrow> 'k \<Rightarrow> error + 'v" where
  "dict_get d k = (case map_of d k of None \<Rightarrow> Inl KeyError | Some v \<Rightarrow> Inr v)"

definition keys :: "('k \<times> 'v) list \<Rightarrow> 'k list" where
  "keys d = map fst d"

text \<open>A \<open>defaultdict(list)\<close> or \<open>defaultdict(dict)\<close> read: a missing key reads as empty.\<close>

definition default_get :: "('k \<times> 'v list) list \<Rightarrow> 'k \<Rightarrow> 'v list" where
  "default_get d k = (case map_of d k of None \<Rightarrow> [] | Some v \<Rightarrow> v)"

text \<open>
  The comprehension \<^verbatim>\<open>{k: f(k) for k in ks}\<close>: the keys are visited in order, the first
  failing \<open>f k\<close> ends it, a repeated key keeps its first position and its last value.
\<close>

fun dict_comp :: "('k \<Rightarrow> error + 'v) \<Rightarrow> 'k list \<Rightarrow> ('k \<times> 'v) list \<Rightarrow> error + ('k \<times> 'v) list" where
  "dict_comp f [] acc = Inr acc"
| "dict_comp f (k # ks) acc =
     (case f k of Inl e \<Rightarrow> Inl e | Inr v \<Rightarrow> dict_comp f ks (AList.update k v acc))"

subsection \<open>Policies\<close>

text \<open>
  A policy object. \<open>core\<close> is \<^verbatim>\<open>isinstance(policy, AbsCorePolicy)\<close>. \<open>get_state\<close> and
  \<open>set_state\<close> are abstract in \<open>AbsCorePolicy\<close> and required to correspond; they read
  and write the field \<open>pstate\<close>. The method \<open>on_experiences\<close> of a policy is defined by
  its concrete class: \<open>on_exp\<close> is that method, from the experiences and the current
  state to the returned flag and the new state.
\<close>

record ('s, 'e) policy =
  name :: string
  core :: bool
  pstate :: 's
  on_exp :: "'e \<Rightarrow> 's \<Rightarrow> bool \<times> 's"

definition policy_get_state :: "('s, 'e) policy \<Rightarrow> 's" where
  "policy_get_state p = pstate p"

definition policy_set_state :: "('s, 'e) policy \<Rightarrow> 's \<Rightarrow> ('s, 'e) policy" where
  "policy_set_state p st = p\<lparr>pstate := st\<rparr>"

definition policy_on_experiences :: "('s, 'e) policy \<Rightarrow> 'e \<Rightarrow> bool \<times> ('s, 'e) policy" where
  "policy_on_experiences p exp =
     (case on_exp p exp (pstate p) of (changed, st) \<Rightarrow> (changed, p\<lparr>pstate := st\<rparr>))"

subsection \<open>AbsPolicyManager\<close>

record ('s, 'e) abs_policy_manager =
  policy_dict :: "(string \<times> ('s, 'e) policy) list"
  updated :: "string set"
  version :: int

text \<open>\<^verbatim>\<open>{policy.name: policy for policy in policies}\<close>\<close>

definition policies_by_name :: "('s, 'e) policy list \<Rightarrow> (string \<times> ('s, 'e) policy) list" where
  "policies_by_name policies = fold (\<lambda>p d. AList.update (name p) p d) policies []"

definition abs_init :: "('s, 'e) policy list \<Rightarrow> error + ('s, 'e) abs_policy_manager" where
  "abs_init policies =
     (if list_ex (\<lambda>p. \<not> core p) policies then Inl ValueError
      else Inr \<lparr>policy_dict = policies_by_name policies,
                updated = set (keys (policies_by_name policies)),
                version = 0\<rparr>)"

text \<open>
  \<^verbatim>\<open>{name: self.policy_dict[name].get_state() for name in self.updated}\<close>: a name of
  \<open>updated\<close> that is no key of \<open>policy_dict\<close> raises \<open>KeyError\<close>.
\<close>

definition get_state :: "('s, 'e, 'z) abs_policy_manager_scheme \<Rightarrow> error + (string \<rightharpoonup> 's)" where
  "get_state m =
     (if \<forall>n \<in> updated m. n \<in> set (keys (policy_dict m))
      then Inr (\<lambda>n. if n \<in> updated m
                    then map_option policy_get_state (map_of (policy_dict m) n) else None)
      else Inl KeyError)"

definition reset_update_status ::
  "('s, 'e, 'z) abs_policy_manager_scheme \<Rightarrow> ('s, 'e, 'z) abs_policy_manager_scheme" where
  "reset_update_status m = m\<lparr>updated := {}\<rparr>"

subsection \<open>LocalPolicyManager\<close>

text \<open>
  The constructor adds a logger and a counter that no method reads; the manager's state
  is that of the base class.
\<close>

definition local_init :: "('s, 'e) policy list \<Rightarrow> error + ('s, 'e) abs_policy_manager" where
  "local_init policies = abs_init policies"

text \<open>
  The loop of \<open>LocalPolicyManager.on_experiences\<close> over \<^verbatim>\<open>exp_by_policy.items()\<close>.
  The policy object is mutated by its own \<open>on_experiences\<close> whatever flag it returns.
  After the loop the method only writes to the log.
\<close>

fun local_on_experiences ::
  "('s, 'e, 'z) abs_policy_manager_scheme \<Rightarrow> (string \<times> 'e) list
     \<Rightarrow> ('s, 'e, 'z) abs_policy_manager_scheme result" where
  "local_on_experiences m [] = Returned m"
| "local_on_experiences m ((policy_name, exp) # rest) =
     (case map_of (policy_dict m) policy_name of
        None \<Rightarrow> Raised KeyError m
      | Some p \<Rightarrow>
          if core p then
            (case policy_on_experiences p exp of
               (changed, p') \<Rightarrow>
                 local_on_experiences
                   (m\<lparr>policy_dict := AList.update policy_name p' (policy_dict m),
                      updated := (if changed then insert policy_name (updated m) else updated m)\<rparr>)
                   rest)
          else local_on_experiences m rest)"

subsection \<open>Effects outside the manager\<close>

text \<open>
  The messages a manager sends to a trainer: over a pipe the dictionaries
  \<^verbatim>\<open>{"type": "train", "experiences": ...}\<close> and \<^verbatim>\<open>{"type": "quit"}\<close>, through the proxy
  the tags \<open>INIT_POLICY_STATE\<close>, \<open>TRAIN\<close> and \<open>EXIT\<close> with their bodies.
  \<open>Quit\<close> is the \<open>quit\<close> dictionary as well as the tag \<open>EXIT\<close>.
\<close>

datatype ('s, 'e) message =
    Init_policy_state "(string \<times> 's) list"
  | Train "(string \<times> 'e) list"
  | Quit

text \<open>
  What a constructor or \<open>exit\<close> does to the world: \<open>Pipe()\<close>, \<open>trainer.start()\<close> for a
  trainer id with the names it got creation functions for and their initial states,
  \<open>conn.send\<close> or \<open>proxy.send\<close> to a trainer, the creation of the \<open>Proxy\<close> for a group
  with a number of trainer peers, \<open>ibroadcast\<close> to a peer group, and \<open>proxy.close()\<close>.
\<close>

datatype ('s, 'e) effect =
    Pipe_open string
  | Process_start string "string list" "(string \<times> 's) list"
  | Send string "('s, 'e) message"
  | Proxy_open string nat
  | Broadcast string "('s, 'e) message"
  | Proxy_close

text \<open>
  A trainer's reply to a \<open>TRAIN\<close> command is not decided by the manager: it is given,
  for one call of \<open>on_experiences\<close>, as a function of the trainer id and the experiences
  that were sent to it, and is the dictionary of policy states in the reply.
\<close>

type_synonym ('s, 'e) trainers = "string \<Rightarrow> (string \<times> 'e) list \<Rightarrow> (string \<times> 's) list"

subsection \<open>What the two distributed managers share\<close>

text \<open>
  \<^verbatim>\<open>for policy_name, trainer_id in policy2trainer.items():
      self._trainer2policies[trainer_id].append(policy_name)\<close>
\<close>

definition build_trainer2policies :: "(string \<times> string) list \<Rightarrow> (string \<times> string list) list" where
  "build_trainer2policies policy2trainer =
     fold (\<lambda>(policy_name, trainer_id) d.
             AList.update trainer_id (default_get d trainer_id @ [policy_name]) d)
          policy2trainer []"

text \<open>
  The loop over one reply:
  \<^verbatim>\<open>self.policy_dict[policy_name].set_state(policy_state); self.updated.add(policy_name)\<close>
\<close>

fun merge_reply ::
  "(string \<times> 's) list \<Rightarrow> ('s, 'e, 'z) abs_policy_manager_scheme
     \<Rightarrow> ('s, 'e, 'z) abs_policy_manager_scheme result" where
  "merge_reply [] m = Returned m"
| "merge_reply ((policy_name, policy_state) # rest) m =
     (case map_of (policy_dict m) policy_name of
        None \<Rightarrow> Raised KeyError m
      | Some p \<Rightarrow>
          merge_reply rest
            (m\<lparr>policy_dict := AList.update policy_name (policy_set_state p policy_state) (policy_dict m),
               updated := insert policy_name (updated m)\<rparr>))"

text \<open>The loop over the replies, in the order they are read.\<close>

fun merge_replies ::
  "(string \<times> 's) list list \<Rightarrow> ('s, 'e, 'z) abs_policy_manager_scheme
     \<Rightarrow> ('s, 'e, 'z) abs_policy_manager_scheme result" where
  "merge_replies [] m = Returned m"
| "merge_replies (reply # rest) m =
     (case merge_reply reply m of
        Raised e m' \<Rightarrow> Raised e m'
      | Returned m' \<Rightarrow> merge_replies rest m')"

text \<open>\<^verbatim>\<open>if self.updated: self._version += 1\<close>\<close>

definition bump_version ::
  "('s, 'e, 'z) abs_policy_manager_scheme \<Rightarrow> ('s, 'e, 'z) abs_policy_manager_scheme" where
  "bump_version m = (if updated m \<noteq> {} then m\<lparr>version := version m + 1\<rparr> else m)"

fun finish :: "('s, 'e, 'z) abs_policy_manager_scheme result
     \<Rightarrow> ('s, 'e, 'z) abs_policy_manager_scheme result" where
  "finish (Raised e m) = Raised e m"
| "finish (Returned m) = Returned (bump_version m)"

text \<open>The policy names that occur in the lists of a trainer-to-policies dictionary.\<close>

definition names_of :: "('k \<times> 'v list) list \<Rightarrow> 'v set" where
  "names_of d = (\<Union>(t, ns) \<in> set d. set ns)"

subsection \<open>MultiProcessPolicyManager\<close>

text \<open>
  \<open>manager_end\<close> holds the trainer ids that have a pipe, in the order of the dictionary
  \<open>_manager_end\<close>; the connection of a trainer is identified with its id.
\<close>

record ('s, 'e) multi_process_policy_manager = "('s, 'e) abs_policy_manager" +
  policy2trainer :: "(string \<times> string) list"
  trainer2policies :: "(string \<times> string list) list"
  manager_end :: "string list"

text \<open>
  The loop of the constructor over \<^verbatim>\<open>self._trainer2policies.items()\<close>. For a trainer the
  pipe is opened first, then the two dictionaries of the process arguments are built
  (each lookup may raise), then the process is started.
\<close>

fun spawn_trainers ::
  "(string \<times> 'c) list \<Rightarrow> (string \<times> ('s, 'e) policy) list \<Rightarrow> (string \<times> string list) list
     \<Rightarrow> ('s, 'e) effect list \<times> error option" where
  "spawn_trainers create_policy_func_dict pd [] = ([], None)"
| "spawn_trainers create_policy_func_dict pd ((trainer_id, policy_names) # rest) =
     (case dict_comp (dict_get create_policy_func_dict) policy_names [] of
        Inl e \<Rightarrow> ([Pipe_open trainer_id], Some e)
      | Inr funcs \<Rightarrow>
          (case dict_comp (\<lambda>n. map_sum id policy_get_state (dict_get pd n)) policy_names [] of
             Inl e \<Rightarrow> ([Pipe_open trainer_id], Some e)
           | Inr states \<Rightarrow>
               (case spawn_trainers create_policy_func_dict pd rest of
                  (effs, r) \<Rightarrow>
                    (Pipe_open trainer_id # Process_start trainer_id (keys funcs) states # effs, r))))"

definition mp_init ::
  "('s, 'e) policy list \<Rightarrow> (string \<times> string) list \<Rightarrow> (string \<times> 'c) list
     \<Rightarrow> ('s, 'e) effect list \<times> (error + ('s, 'e) multi_process_policy_manager)" where
  "mp_init policies p2t create_policy_func_dict =
     (case abs_init policies of
        Inl e \<Rightarrow> ([], Inl e)
      | Inr base \<Rightarrow>
          (case spawn_trainers create_policy_func_dict (policy_dict base) (build_trainer2policies p2t) of
             (effs, Some e) \<Rightarrow> (effs, Inl e)
           | (effs, None) \<Rightarrow>
               (effs, Inr \<lparr>policy_dict = policy_dict base, updated = updated base,
                           version = version base, policy2trainer = p2t,
                           trainer2policies = build_trainer2policies p2t,
                           manager_end = keys (build_trainer2policies p2t)\<rparr>)))"

text \<open>
  The first loop of \<open>on_experiences\<close>, over \<^verbatim>\<open>self._manager_end.items()\<close>: the experiences
  for a trainer are \<^verbatim>\<open>{name: exp_by_policy[name] for name in self._trainer2policies[trainer_id]}\<close>.
  The result is the list of the commands that were sent, with the exception that ended
  the loop, if any.
\<close>

fun mp_send ::
  "(string \<times> string list) list \<Rightarrow> (string \<times> 'e) list \<Rightarrow> string list
     \<Rightarrow> (string \<times> (string \<times> 'e) list) list \<times> error option" where
  "mp_send t2p exp_by_policy [] = ([], None)"
| "mp_send t2p exp_by_policy (trainer_id # rest) =
     (case dict_comp (dict_get exp_by_policy) (default_get t2p trainer_id) [] of
        Inl e \<Rightarrow> ([], Some e)
      | Inr experiences \<Rightarrow>
          (case mp_send t2p exp_by_policy rest of
             (sent, r) \<Rightarrow> ((trainer_id, experiences) # sent, r)))"

text \<open>
  \<open>on_experiences\<close> returns the \<open>train\<close> commands it sent (trainer id and experiences)
  and the manager. The second loop reads one reply from every connection.
\<close>

definition mp_on_experiences ::
  "('s, 'e, 'z) multi_process_policy_manager_scheme \<Rightarrow> (string \<times> 'e) list \<Rightarrow> ('s, 'e) trainers
     \<Rightarrow> (string \<times> (string \<times> 'e) list) list
         \<times> ('s, 'e, 'z) multi_process_policy_manager_scheme result" where
  "mp_on_experiences m exp_by_policy recv =
     (case mp_send (trainer2policies m) exp_by_policy (manager_end m) of
        (sent, Some e) \<Rightarrow> (sent, Raised e m)
      | (sent, None) \<Rightarrow>
          (sent, finish (merge_replies (map (\<lambda>(trainer_id, experiences). recv trainer_id experiences) sent) m)))"

definition mp_exit :: "('s, 'e, 'z) multi_process_policy_manager_scheme \<Rightarrow> ('s, 'e) effect list" where
  "mp_exit m = map (\<lambda>trainer_id. Send trainer_id Quit) (manager_end m)"

subsection \<open>MultiNodePolicyManager\<close>

text \<open>
  The fields \<open>policy2trainer\<close> and \<open>_trainer2policies\<close> of the multi-node manager
  (named apart from those of the multi-process manager), and the number of trainer
  peers its proxy was created with.
\<close>

record ('s, 'e) multi_node_policy_manager = "('s, 'e) abs_policy_manager" +
  mn_policy2trainer :: "(string \<times> string) list"
  mn_trainer2policies :: "(string \<times> string list) list"
  proxy_peers :: nat

text \<open>
  The loop of the constructor that sends every trainer the states of its policies.
\<close>

fun send_init_states ::
  "(string \<times> ('s, 'e) policy) list \<Rightarrow> (string \<times> string list) list
     \<Rightarrow> ('s, 'e) effect list \<times> error option" where
  "send_init_states pd [] = ([], None)"
| "send_init_states pd ((trainer_name, policy_names) # rest) =
     (case dict_comp (\<lambda>n. map_sum id policy_get_state (dict_get pd n)) policy_names [] of
        Inl e \<Rightarrow> ([], Some e)
      | Inr states \<Rightarrow>
          (case send_init_states pd rest of
             (effs, r) \<Rightarrow> (Send trainer_name (Init_policy_state states) # effs, r)))"

definition mn_init ::
  "('s, 'e) policy list \<Rightarrow> (string \<times> string) list \<Rightarrow> string
     \<Rightarrow> ('s, 'e) effect list \<times> (error + ('s, 'e) multi_node_policy_manager)" where
  "mn_init policies p2t group_name =
     (case abs_init policies of
        Inl e \<Rightarrow> ([], Inl e)
      | Inr base \<Rightarrow>
          (let peers = card (set (map snd p2t)) in
           case send_init_states (policy_dict base) (build_trainer2policies p2t) of
             (effs, Some e) \<Rightarrow> (Proxy_open group_name peers # effs, Inl e)
           | (effs, None) \<Rightarrow>
               (Proxy_open group_name peers # effs,
                Inr \<lparr>policy_dict = policy_dict base, updated = updated base,
                     version = version base, mn_policy2trainer = p2t,
                     mn_trainer2policies = build_trainer2policies p2t,
                     proxy_peers = peers\<rparr>)))"

text \<open>
  The first loop of \<open>on_experiences\<close>, which fills \<open>msg_body_by_dest\<close>. A message body
  has the one key \<open>MsgKey.EXPERIENCES\<close>; the body is identified with the dictionary
  under that key.
\<close>

fun partition_batch ::
  "(string \<times> string) list \<Rightarrow> (string \<times> 'e) list \<Rightarrow> (string \<times> (string \<times> 'e) list) list
     \<Rightarrow> error + (string \<times> (string \<times> 'e) list) list" where
  "partition_batch p2t [] msg_body_by_dest = Inr msg_body_by_dest"
| "partition_batch p2t ((policy_name, exp) # rest) msg_body_by_dest =
     (case map_of p2t policy_name of
        None \<Rightarrow> Inl KeyError
      | Some trainer_id \<Rightarrow>
          partition_batch p2t rest
            (AList.update trainer_id
               (AList.update policy_name exp (default_get msg_body_by_dest trainer_id))
               msg_body_by_dest))"

text \<open>
  Modelled from the spec: \<open>Proxy.scatter\<close> of \<open>maro.communication\<close>, which is not among
  the sources. It sends each payload to its peer and blocks until one reply per payload
  is collected, matched by peer; the replies are returned in the order of the payloads.
\<close>

definition scatter ::
  "('s, 'e) trainers \<Rightarrow> (string \<times> (string \<times> 'e) list) list \<Rightarrow> (string \<times> 's) list list" where
  "scatter recv dests = map (\<lambda>(trainer_id, experiences). recv trainer_id experiences) dests"

definition mn_on_experiences ::
  "('s, 'e, 'z) multi_node_policy_manager_scheme \<Rightarrow> (string \<times> 'e) list \<Rightarrow> ('s, 'e) trainers
     \<Rightarrow> (string \<times> (string \<times> 'e) list) list
         \<times> ('s, 'e, 'z) multi_node_policy_manager_scheme result" where
  "mn_on_experiences m exp_by_policy recv =
     (case partition_batch (mn_policy2trainer m) exp_by_policy [] of
        Inl e \<Rightarrow> ([], Raised e m)
      | Inr msg_body_by_dest \<Rightarrow>
          (msg_body_by_dest, finish (merge_replies (scatter recv msg_body_by_dest) m)))"

definition mn_exit :: "('s, 'e, 'z) multi_node_policy_manager_scheme \<Rightarrow> ('s, 'e) effect list" where
  "mn_exit m = [Broadcast ''trainer'' Quit, Proxy_close]"

subsection \<open>Sequences of calls\<close>

text \<open>
  The calls a client can make on a manager. A call of \<open>on_experiences\<close> comes with the
  batch and, for the distributed managers, with what the trainers reply during that call.
\<close>

datatype ('s, 'e) call =
    On_experiences "(string \<times> 'e) list" "('s, 'e) trainers"
  | Get_state
  | Reset_update_status
  | Exit

text \<open>\<open>LocalPolicyManager\<close> has no method \<open>exit\<close>: the call raises \<open>AttributeError\<close>.\<close>

fun local_call ::
  "('s, 'e, 'z) abs_policy_manager_scheme \<Rightarrow> ('s, 'e) call
     \<Rightarrow> ('s, 'e, 'z) abs_policy_manager_scheme result" where
  "local_call m (On_experiences exp_by_policy recv) = local_on_experiences m exp_by_policy"
| "local_call m Get_state = (case get_state m of Inl e \<Rightarrow> Raised e m | Inr st \<Rightarrow> Returned m)"
| "local_call m Reset_update_status = Returned (reset_update_status m)"
| "local_call m Exit = Raised AttributeError m"

text \<open>
  \<open>exit\<close> of a distributed manager writes no field of the manager; what it sends is
  \<open>mp_exit\<close> and \<open>mn_exit\<close>.
\<close>

fun mp_call ::
  "('s, 'e, 'z) multi_process_policy_manager_scheme \<Rightarrow> ('s, 'e) call
     \<Rightarrow> ('s, 'e, 'z) multi_process_policy_manager_scheme result" where
  "mp_call m (On_experiences exp_by_policy recv) = snd (mp_on_experiences m exp_by_policy recv)"
| "mp_call m Get_state = (case get_state m of Inl e \<Rightarrow> Raised e m | Inr st \<Rightarrow> Returned m)"
| "mp_call m Reset_update_status = Returned (reset_update_status m)"
| "mp_call m Exit = Returned m"

fun mn_call ::
  "('s, 'e, 'z) multi_node_policy_manager_scheme \<Rightarrow> ('s, 'e) call
     \<Rightarrow> ('s, 'e, 'z) multi_node_policy_manager_scheme result" where
  "mn_call m (On_experiences exp_by_policy recv) = snd (mn_on_experiences m exp_by_policy recv)"
| "mn_call m Get_state = (case get_state m of Inl e \<Rightarrow> Raised e m | Inr st \<Rightarrow> Returned m)"
| "mn_call m Reset_update_status = Returned (reset_update_status m)"
| "mn_call m Exit = Returned m"

text \<open>
  A sequence of calls on one manager; a call that raises leaves the manager as the
  exception found it, and the client goes on with the next call.
\<close>

fun calls :: "('m \<Rightarrow> 'c \<Rightarrow> 'm result) \<Rightarrow> 'm \<Rightarrow> 'c list \<Rightarrow> 'm" where
  "calls step m [] = m"
| "calls step m (c # cs) = calls step (state_of (step m c)) cs"

subsection \<open>Concrete policies and managers\<close>

text \<open>
  Inputs for the closed theorems below. A \<open>learner\<close> keeps the sum of the experiences
  it was given and reports a change when the experience is positive; a \<open>null_policy\<close>
  is no \<open>AbsCorePolicy\<close>. The three managers are what the constructors return for the
  one policy \<open>learner ''A''\<close>, assigned to the trainer \<open>''T''\<close>.
\<close>

definition learner :: "string \<Rightarrow> (nat, nat) policy" where
  "learner n = \<lparr>name = n, core = True, pstate = 0, on_exp = (\<lambda>e s. (0 < e, s + e))\<rparr>"

definition null_policy :: "string \<Rightarrow> (nat, nat) policy" where
  "null_policy n = \<lparr>name = n, core = False, pstate = 0, on_exp = (\<lambda>e s. (False, s))\<rparr>"

definition local_A :: "(nat, nat) abs_policy_manager" where
  "local_A = \<lparr>policy_dict = [(''A'', learner ''A'')], updated = {''A''}, version = 0\<rparr>"

definition mp_A :: "(nat, nat) multi_process_policy_manager" where
  "mp_A = \<lparr>policy_dict = [(''A'', learner ''A'')], updated = {''A''}, version = 0,
            policy2trainer = [(''A'', ''T'')], trainer2policies = [(''T'', [''A''])],
            manager_end = [''T'']\<rparr>"

definition mn_A :: "(nat, nat) multi_node_policy_manager" where
  "mn_A = \<lparr>policy_dict = [(''A'', learner ''A'')], updated = {''A''}, version = 0,
            mn_policy2trainer = [(''A'', ''T'')], mn_trainer2policies = [(''T'', [''A''])],
            proxy_peers = 1\<rparr>"

text \<open>
  The scenario of three policies on two trainers: \<open>''A''\<close> and \<open>''B''\<close> on
  \<open>''T1''\<close>, \<open>''C''\<close> on \<open>''T2''\<close>; the managers are what the constructors return.
\<close>

definition mp_ABC :: "(nat, nat) multi_process_policy_manager" where
  "mp_ABC = \<lparr>policy_dict = [(''A'', learner ''A''), (''B'', learner ''B''), (''C'', learner ''C'')],
              updated = {''A'', ''B'', ''C''}, version = 0,
              policy2trainer = [(''A'', ''T1''), (''B'', ''T1''), (''C'', ''T2'')],
              trainer2policies = [(''T1'', [''A'', ''B'']), (''T2'', [''C''])],
              manager_end = [''T1'', ''T2'']\<rparr>"

definition mn_ABC :: "(nat, nat) multi_node_policy_manager" where
  "mn_ABC = \<lparr>policy_dict = [(''A'', learner ''A''), (''B'', learner ''B''), (''C'', learner ''C'')],
              updated = {''A'', ''B'', ''C''}, version = 0,
              mn_policy2trainer = [(''A'', ''T1''), (''B'', ''T1''), (''C'', ''T2'')],
              mn_trainer2policies = [(''T1'', [''A'', ''B'']), (''T2'', [''C''])],
              proxy_peers = 2\<rparr>"

section \<open>Properties\<close>

subsection \<open>Dictionaries and constructors\<close>

lemma set_keys_update: "set (keys (AList.update k v d)) = insert k (set (keys d))"
  using AList.dom_update [of k v d] by (simp add: keys_def)

lemma set_keys_fold_names:
  "set (keys (fold (\<lambda>p d. AList.update (name p) p d) ps d0)) = name ` set ps \<union> set (keys d0)"
  by (induction ps arbitrary: d0) (auto simp: set_keys_update)

lemma set_keys_policies_by_name: "set (keys (policies_by_name ps)) = name ` set ps"
  using set_keys_fold_names [of ps "[]"] by (simp add: policies_by_name_def keys_def)

lemma map_of_fold_names_other:
  "\<forall>q \<in> set ps. name q \<noteq> n \<Longrightarrow>
   map_of (fold (\<lambda>p d. AList.update (name p) p d) ps d0) n = map_of d0 n"
  by (induction ps arbitrary: d0) (auto simp: AList.update_conv')

lemma map_of_policies_by_name_last:
  "\<forall>q \<in> set zs. name q \<noteq> name p \<Longrightarrow>
   map_of (policies_by_name (xs @ p # zs)) (name p) = Some p"
  by (simp add: policies_by_name_def map_of_fold_names_other AList.update_conv')

lemma abs_init_Inr:
  "abs_init ps = Inr m \<Longrightarrow>
     policy_dict m = policies_by_name ps \<and> updated m = name ` set ps \<and> version m = 0 \<and>
     list_all core ps"
  by (auto simp: abs_init_def set_keys_policies_by_name list_ex_iff list_all_iff split: if_splits)

lemma abs_init_all_core:
  "list_all core ps \<Longrightarrow> \<exists>m. abs_init ps = Inr m"
  by (auto simp: abs_init_def list_ex_iff list_all_iff)

lemma mp_init_Inr:
  "mp_init ps p2t cpf = (effs, Inr m) \<Longrightarrow>
     \<exists>b. abs_init ps = Inr b \<and> policy_dict m = policy_dict b \<and> updated m = updated b \<and> version m = version b
       \<and> policy2trainer m = p2t \<and> trainer2policies m = build_trainer2policies p2t
       \<and> manager_end m = keys (build_trainer2policies p2t)
       \<and> snd (spawn_trainers cpf (policy_dict b) (build_trainer2policies p2t)) = None"
  by (auto simp: mp_init_def split: sum.splits prod.splits option.splits)

lemma mn_init_Inr:
  "mn_init ps p2t g = (effs, Inr m) \<Longrightarrow>
     \<exists>b. abs_init ps = Inr b \<and> policy_dict m = policy_dict b \<and> updated m = updated b \<and> version m = version b
       \<and> mn_policy2trainer m = p2t \<and> mn_trainer2policies m = build_trainer2policies p2t
       \<and> snd (send_init_states (policy_dict b) (build_trainer2policies p2t)) = None"
  by (auto simp: mn_init_def Let_def split: sum.splits prod.splits option.splits)

lemma get_state_all_updated:
  "updated m = set (keys (policy_dict m)) \<Longrightarrow>
   map_sum id dom (get_state m) = Inr (set (keys (policy_dict m)))"
proof -
  assume u: "updated m = set (keys (policy_dict m))"
  have "dom (\<lambda>n. if n \<in> updated m
                then map_option policy_get_state (map_of (policy_dict m) n) else None)
        = updated m \<inter> dom (map_of (policy_dict m))"
    by (auto simp: dom_def split: if_splits)
  also have "\<dots> = set (keys (policy_dict m))"
    using u by (simp add: dom_map_of_conv_image_fst keys_def)
  finally show ?thesis
    using u by (simp add: get_state_def)
qed

lemmas init_defs = local_init_def mp_init_def mn_init_def abs_init_def policies_by_name_def keys_def
  build_trainer2policies_def default_get_def dict_get_def policy_get_state_def

lemma local_init_A: "local_init [learner ''A''] = Inr local_A"
  by (simp add: init_defs local_A_def learner_def)

lemma mp_init_A:
  "mp_init [learner ''A''] [(''A'', ''T'')] [(''A'', ())]
     = ([Pipe_open ''T'', Process_start ''T'' [''A''] [(''A'', 0)]], Inr mp_A)"
  by (simp add: init_defs mp_A_def learner_def)

lemma mn_init_A:
  "mn_init [learner ''A''] [(''A'', ''T'')] ''g''
     = ([Proxy_open ''g'' 1, Send ''T'' (Init_policy_state [(''A'', 0)])], Inr mn_A)"
  by (simp add: init_defs mn_A_def learner_def)

subsection \<open>When the constructors succeed\<close>

lemma names_of_append_entry:
  "names_of (AList.update t (default_get d t @ [n]) d) = insert n (names_of d)"
proof (induction d)
  case Nil
  show ?case by (simp add: names_of_def default_get_def)
next
  case (Cons kv d)
  obtain k v where kv: "kv = (k, v)" by (cases kv)
  show ?case
  proof (cases "k = t")
    case True
    with kv show ?thesis by (auto simp: names_of_def default_get_def)
  next
    case False
    then have "default_get (kv # d) t = default_get d t"
      using kv by (simp add: default_get_def)
    with False kv Cons show ?thesis by (auto simp: names_of_def)
  qed
qed

lemma names_of_fold:
  "names_of (fold (\<lambda>(policy_name, trainer_id) d.
             AList.update trainer_id (default_get d trainer_id @ [policy_name]) d) p2t d0)
   = set (keys p2t) \<union> names_of d0"
proof (induction p2t arbitrary: d0)
  case Nil
  show ?case by (simp add: keys_def)
next
  case (Cons a p2t)
  obtain n t where a: "a = (n, t)" by (cases a)
  show ?case using Cons [of "AList.update t (default_get d0 t @ [n]) d0"] a
    by (simp add: names_of_append_entry keys_def)
qed

lemma names_of_build_trainer2policies:
  "names_of (build_trainer2policies p2t) = set (keys p2t)"
  using names_of_fold [of p2t "[]"] by (simp add: build_trainer2policies_def names_of_def)

lemma isl_dict_get: "isl (dict_get d k) \<longleftrightarrow> k \<notin> set (keys d)"
  by (auto simp: dict_get_def keys_def map_of_eq_None_iff split: option.splits)
    (metis map_of_eq_None_iff option.distinct(1))

lemma isl_dict_comp: "isl (dict_comp f ks acc) \<longleftrightarrow> (\<exists>k \<in> set ks. isl (f k))"
  by (induction ks arbitrary: acc) (auto split: sum.splits)

lemma spawn_trainers_None:
  "snd (spawn_trainers cpf pd t2p) = None \<longleftrightarrow>
     names_of t2p \<subseteq> set (keys cpf) \<inter> set (keys pd)"
proof (induction t2p)
  case Nil
  show ?case by (simp add: names_of_def)
next
  case (Cons a t2p)
  obtain t ns where a: "a = (t, ns)" by (cases a)
  have c1: "isl (dict_comp (dict_get cpf) ns []) \<longleftrightarrow> \<not> set ns \<subseteq> set (keys cpf)"
    by (auto simp: isl_dict_comp isl_dict_get)
  have c2: "isl (dict_comp (\<lambda>n. map_sum id policy_get_state (dict_get pd n)) ns [])
              \<longleftrightarrow> \<not> set ns \<subseteq> set (keys pd)"
    by (auto simp: isl_dict_comp isl_dict_get isl_map_sum)
  show ?case
    using Cons c1 c2 a
    by (auto simp: names_of_def split: sum.splits prod.splits)
qed

lemma send_init_states_None:
  "snd (send_init_states pd t2p) = None \<longleftrightarrow> names_of t2p \<subseteq> set (keys pd)"
proof (induction t2p)
  case Nil
  show ?case by (simp add: names_of_def)
next
  case (Cons a t2p)
  obtain t ns where a: "a = (t, ns)" by (cases a)
  have c2: "isl (dict_comp (\<lambda>n. map_sum id policy_get_state (dict_get pd n)) ns [])
              \<longleftrightarrow> \<not> set ns \<subseteq> set (keys pd)"
    by (auto simp: isl_dict_comp isl_dict_get isl_map_sum)
  show ?case
    using Cons c2 a
    by (auto simp: names_of_def split: sum.splits prod.splits)
qed


lemma mp_init_succeeds:
  assumes "list_all core ps" "set (keys p2t) \<subseteq> set (keys cpf)" "set (keys p2t) \<subseteq> name ` set ps"
  shows "\<exists>effs m. mp_init ps p2t cpf = (effs, Inr m) \<and> policy_dict m = policies_by_name ps"
proof -
  obtain b where b: "abs_init ps = Inr b" using abs_init_all_core [OF assms(1)] by blast
  then have pd: "policy_dict b = policies_by_name ps" using abs_init_Inr by blast
  have "snd (spawn_trainers cpf (policy_dict b) (build_trainer2policies p2t)) = None"
    using assms(2,3)
    by (simp add: spawn_trainers_None names_of_build_trainer2policies pd set_keys_policies_by_name)
  then obtain effs where "spawn_trainers cpf (policy_dict b) (build_trainer2policies p2t) = (effs, None)"
    by (cases "spawn_trainers cpf (policy_dict b) (build_trainer2policies p2t)") simp
  with b pd show ?thesis by (simp add: mp_init_def)
qed

lemma mn_init_succeeds:
  assumes "list_all core ps" "set (keys p2t) \<subseteq> name ` set ps"
  shows "\<exists>effs m. mn_init ps p2t g = (effs, Inr m) \<and> policy_dict m = policies_by_name ps"
proof -
  obtain b where b: "abs_init ps = Inr b" using abs_init_all_core [OF assms(1)] by blast
  then have pd: "policy_dict b = policies_by_name ps" using abs_init_Inr by blast
  have "snd (send_init_states (policy_dict b) (build_trainer2policies p2t)) = None"
    using assms(2)
    by (simp add: send_init_states_None names_of_build_trainer2policies pd set_keys_policies_by_name)
  then obtain effs where "send_init_states (policy_dict b) (build_trainer2policies p2t) = (effs, None)"
    by (cases "send_init_states (policy_dict b) (build_trainer2policies p2t)") simp
  with b pd show ?thesis by (simp add: mn_init_def)
qed

lemma distinct_fold_names:
  "distinct (map fst d0) \<Longrightarrow>
   distinct (map fst (fold (\<lambda>p d. AList.update (name p) p d) ps d0))"
  by (induction ps arbitrary: d0) (simp_all add: AList.distinct_update)

lemma distinct_policies_by_name: "distinct (map fst (policies_by_name ps))"
  by (simp add: policies_by_name_def distinct_fold_names)

lemma set_alist_update_subset: "set (AList.update k v al) \<subseteq> insert (k, v) (set al)"
  by (induction al) auto

lemma entries_fold_names:
  "\<forall>(k, p) \<in> set d0. k = name p \<Longrightarrow>
   \<forall>(k, p) \<in> set (fold (\<lambda>p d. AList.update (name p) p d) ps d0). k = name p"
proof (induction ps arbitrary: d0)
  case Nil
  then show ?case by simp
next
  case (Cons q ps)
  have "\<forall>(k, p) \<in> set (AList.update (name q) q d0). k = name p"
  proof (clarify)
    fix k p assume "(k, p) \<in> set (AList.update (name q) q d0)"
    then have "(k, p) = (name q, q) \<or> (k, p) \<in> set d0"
      using set_alist_update_subset [of "name q" q d0] by blast
    then show "k = name p" using Cons.prems by auto
  qed
  then show ?case using Cons.IH by simp
qed

lemma entries_policies_by_name: "(k, p) \<in> set (policies_by_name ps) \<Longrightarrow> k = name p"
  using entries_fold_names [of "[]" ps] by (auto simp: policies_by_name_def)

lemma earlier_policy_discarded:
  assumes "map_of (policies_by_name ps) (name p2) = Some p2" "name p1 = name p2" "p1 \<noteq> p2"
  shows "p1 \<notin> snd ` set (policies_by_name ps)"
proof
  assume "p1 \<in> snd ` set (policies_by_name ps)"
  then obtain k where k: "(k, p1) \<in> set (policies_by_name ps)" by auto
  then have "k = name p2" using entries_policies_by_name assms(2) by metis
  with k have "map_of (policies_by_name ps) (name p2) = Some p1"
    using distinct_policies_by_name [of ps] by simp
  with assms(1,3) show False by simp
qed

subsection \<open>The version counter through the calls\<close>

lemma local_on_experiences_version:
  "version (state_of (local_on_experiences m b)) = version m"
  by (induction m b rule: local_on_experiences.induct) (auto split: option.splits prod.splits)

lemma merge_reply_version: "version (state_of (merge_reply r m)) = version m"
  by (induction r m rule: merge_reply.induct) (auto split: option.splits)

lemma merge_replies_version: "version (state_of (merge_replies rs m)) = version m"
proof (induction rs arbitrary: m)
  case Nil
  show ?case by simp
next
  case (Cons r rs)
  show ?case
  proof (cases "merge_reply r m")
    case (Returned m')
    then show ?thesis using Cons [of m'] merge_reply_version [of r m] by simp
  next
    case (Raised e m')
    then show ?thesis using merge_reply_version [of r m] by simp
  qed
qed

lemma finish_version:
  "version (state_of (finish r)) = version (state_of r) \<or>
   version (state_of (finish r)) = version (state_of r) + 1"
  by (cases r) (simp_all add: bump_version_def)

lemma mp_on_experiences_version:
  "version (state_of (snd (mp_on_experiences m b recv))) = version m \<or>
   version (state_of (snd (mp_on_experiences m b recv))) = version m + 1"
proof (cases "mp_send (trainer2policies m) b (manager_end m)")
  case (Pair sent r)
  show ?thesis
  proof (cases r)
    case None
    with Pair show ?thesis
      using finish_version [of "merge_replies (map (\<lambda>(t, ex). recv t ex) sent) m"]
      by (simp add: mp_on_experiences_def merge_replies_version)
  next
    case (Some e)
    with Pair show ?thesis by (simp add: mp_on_experiences_def)
  qed
qed

lemma mn_on_experiences_version:
  "version (state_of (snd (mn_on_experiences m b recv))) = version m \<or>
   version (state_of (snd (mn_on_experiences m b recv))) = version m + 1"
proof (cases "partition_batch (mn_policy2trainer m) b []")
  case (Inl e)
  then show ?thesis by (simp add: mn_on_experiences_def)
next
  case (Inr dests)
  then show ?thesis
    using finish_version [of "merge_replies (scatter recv dests) m"]
    by (simp add: mn_on_experiences_def merge_replies_version)
qed

lemma local_call_version:
  "version (state_of (local_call m c)) = version m"
  by (cases c) (simp_all add: local_on_experiences_version reset_update_status_def split: sum.splits)

lemma mp_call_version:
  "version (state_of (mp_call m c)) = version m \<or> version (state_of (mp_call m c)) = version m + 1"
  by (cases c) (simp_all add: mp_on_experiences_version reset_update_status_def split: sum.splits)

lemma mn_call_version:
  "version (state_of (mn_call m c)) = version m \<or> version (state_of (mn_call m c)) = version m + 1"
  by (cases c) (simp_all add: mn_on_experiences_version reset_update_status_def split: sum.splits)

lemma mp_call_version_le: "version m \<le> version (state_of (mp_call m c))"
  using mp_call_version [of m c] by auto

lemma mn_call_version_le: "version m \<le> version (state_of (mn_call m c))"
  using mn_call_version [of m c] by auto

lemma calls_version_mono:
  assumes step: "\<And>m c. version m \<le> version (state_of (step m c))"
  shows "version m \<le> version (calls step m cs)"
proof (induction cs arbitrary: m)
  case Nil
  show ?case by simp
next
  case (Cons c cs)
  have "version m \<le> version (state_of (step m c))" by (rule step)
  also have "\<dots> \<le> version (calls step (state_of (step m c)) cs)" by (rule Cons)
  finally show ?case by simp
qed

subsection \<open>Merging the replies of the trainers\<close>

lemma merge_reply_updated:
  "merge_reply r m = Returned m' \<Longrightarrow> updated m' = updated m \<union> set (keys r)"
proof (induction r m rule: merge_reply.induct)
  case (1 m)
  then show ?case by (simp add: keys_def)
next
  case (2 policy_name policy_state rest m)
  then show ?case by (auto simp: keys_def split: option.splits)
qed

lemma merge_reply_updated_mono: "updated m \<subseteq> updated (state_of (merge_reply r m))"
  by (induction r m rule: merge_reply.induct) (auto split: option.splits)

lemma merge_replies_updated:
  "merge_replies rs m = Returned m' \<Longrightarrow> updated m' = updated m \<union> (\<Union>r \<in> set rs. set (keys r))"
proof (induction rs arbitrary: m)
  case Nil
  then show ?case by simp
next
  case (Cons r rs)
  show ?case
  proof (cases "merge_reply r m")
    case (Returned m1)
    with Cons.prems have "merge_replies rs m1 = Returned m'" by simp
    then have "updated m' = updated m1 \<union> (\<Union>r \<in> set rs. set (keys r))" by (rule Cons.IH)
    with merge_reply_updated [OF Returned] show ?thesis by auto
  next
    case (Raised e m1)
    with Cons.prems show ?thesis by simp
  qed
qed

lemma merge_reply_empty: "merge_replies (map (\<lambda>x. []) xs) m = Returned m"
  by (induction xs) simp_all


lemma finish_Returned:
  "finish r = Returned m' \<Longrightarrow> \<exists>m1. r = Returned m1 \<and> m' = bump_version m1"
  by (cases r) simp_all


lemma nonempty_member: "x \<in> A \<Longrightarrow> A \<noteq> {}"
  by (rule notI) simp

lemma version_after_change:
  assumes "finish (merge_replies rs m) = Returned m'" and "\<exists>r \<in> set rs. r \<noteq> []"
  shows "version m' = version m + 1"
proof -
  obtain m1 where m1: "merge_replies rs m = Returned m1" and m': "m' = bump_version m1"
    using finish_Returned [OF assms(1)] by blast
  have u: "updated m1 = updated m \<union> (\<Union>r \<in> set rs. set (keys r))"
    using m1 by (rule merge_replies_updated)
  obtain r where r: "r \<in> set rs" "r \<noteq> []" using assms(2) by blast
  from r(2) obtain kv r' where "r = kv # r'" by (cases r) simp_all
  then have "fst kv \<in> set (keys r)" by (simp add: keys_def)
  with r(1) have "fst kv \<in> (\<Union>r \<in> set rs. set (keys r))" by (rule UN_I)
  then have "fst kv \<in> updated m1" unfolding u by (rule UnI2)
  then have ne: "updated m1 \<noteq> {}" by (rule nonempty_member)
  have "state_of (merge_replies rs m) = m1" unfolding m1 by simp
  then have v: "version m1 = version m"
    using merge_replies_version [of rs m] by simp
  have "version (bump_version m1) = version m1 + 1"
    using ne by (simp add: bump_version_def)
  then show ?thesis unfolding m' v .
qed

lemma mp_version_after_change:
  assumes "mp_on_experiences m b recv = (sent, Returned m')"
    and "\<exists>(t, ex) \<in> set sent. recv t ex \<noteq> []"
  shows "version m' = version m + 1"
proof -
  obtain s r where sr: "mp_send (trainer2policies m) b (manager_end m) = (s, r)"
    by (cases "mp_send (trainer2policies m) b (manager_end m)")
  have f: "finish (merge_replies (map (\<lambda>(t, ex). recv t ex) sent) m) = Returned m'"
  proof (cases r)
    case None
    have "mp_on_experiences m b recv = (s, finish (merge_replies (map (\<lambda>(t, ex). recv t ex) s) m))"
      unfolding mp_on_experiences_def sr None by simp
    with assms(1) show ?thesis by (metis prod.inject)
  next
    case (Some e)
    have "mp_on_experiences m b recv = (s, Raised e m)"
      unfolding mp_on_experiences_def sr Some by simp
    with assms(1) show ?thesis by simp
  qed
  obtain t ex where tex: "(t, ex) \<in> set sent" "recv t ex \<noteq> []"
    using assms(2) by blast
  then have "recv t ex \<in> set (map (\<lambda>(t, ex). recv t ex) sent)"
    by (simp add: image_iff) (rule bexI [of _ "(t, ex)"], simp_all)
  with tex(2) have "\<exists>r \<in> set (map (\<lambda>(t, ex). recv t ex) sent). r \<noteq> []"
    by (rule bexI)
  with f show ?thesis by (rule version_after_change)
qed

lemma mn_version_after_change:
  assumes "mn_on_experiences m b recv = (sent, Returned m')"
    and "\<exists>(t, ex) \<in> set sent. recv t ex \<noteq> []"
  shows "version m' = version m + 1"
proof -
  have f: "finish (merge_replies (scatter recv sent) m) = Returned m'"
  proof (cases "partition_batch (mn_policy2trainer m) b []")
    case (Inl e)
    with assms(1) show ?thesis by (simp add: mn_on_experiences_def)
  next
    case (Inr d)
    have "mn_on_experiences m b recv = (d, finish (merge_replies (scatter recv d) m))"
      unfolding mn_on_experiences_def Inr by simp
    with assms(1) show ?thesis by (metis prod.inject)
  qed
  obtain t ex where tex: "(t, ex) \<in> set sent" "recv t ex \<noteq> []"
    using assms(2) by blast
  then have "recv t ex \<in> set (scatter recv sent)"
    by (simp add: scatter_def image_iff) (rule bexI [of _ "(t, ex)"], simp_all)
  with tex(2) have "\<exists>r \<in> set (scatter recv sent). r \<noteq> []"
    by (rule bexI)
  with f show ?thesis by (rule version_after_change)
qed

subsection \<open>Construction\<close>

text \<open>
  C6: right after construction, before any \<open>reset_update_status\<close>, \<open>updated\<close> is the
  set of all managed policy names, and \<open>get_state\<close> returns a mapping whose domain is
  that set. This holds for the three constructors whenever they succeed.
\<close>

theorem updated_after_construction:
  "(local_init policies = Inr m \<longrightarrow>
      updated m = name ` set policies \<and> map_sum id dom (get_state m) = Inr (name ` set policies)) \<and>
   (mp_init policies p2t create_policy_func_dict = (effs, Inr m1) \<longrightarrow>
      updated m1 = name ` set policies \<and> map_sum id dom (get_state m1) = Inr (name ` set policies)) \<and>
   (mn_init policies p2t' group_name = (effs', Inr m2) \<longrightarrow>
      updated m2 = name ` set policies \<and> map_sum id dom (get_state m2) = Inr (name ` set policies))"
proof (intro conjI impI)
  assume "local_init policies = Inr m"
  then have *: "policy_dict m = policies_by_name policies" "updated m = name ` set policies"
    using abs_init_Inr [of policies m] by (simp_all add: local_init_def)
  show "updated m = name ` set policies" by (rule *)
  show "map_sum id dom (get_state m) = Inr (name ` set policies)"
    using get_state_all_updated [of m] * by (simp add: set_keys_policies_by_name)
next
  assume "mp_init policies p2t create_policy_func_dict = (effs, Inr m1)"
  then obtain b where "abs_init policies = Inr b" "policy_dict m1 = policy_dict b" "updated m1 = updated b"
    using mp_init_Inr by blast
  then have *: "policy_dict m1 = policies_by_name policies" "updated m1 = name ` set policies"
    using abs_init_Inr [of policies b] by simp_all
  show "updated m1 = name ` set policies" by (rule *)
  show "map_sum id dom (get_state m1) = Inr (name ` set policies)"
    using get_state_all_updated [of m1] * by (simp add: set_keys_policies_by_name)
next
  assume "mn_init policies p2t' group_name = (effs', Inr m2)"
  then obtain b where "abs_init policies = Inr b" "policy_dict m2 = policy_dict b" "updated m2 = updated b"
    using mn_init_Inr by blast
  then have *: "policy_dict m2 = policies_by_name policies" "updated m2 = name ` set policies"
    using abs_init_Inr [of policies b] by simp_all
  show "updated m2 = name ` set policies" by (rule *)
  show "map_sum id dom (get_state m2) = Inr (name ` set policies)"
    using get_state_all_updated [of m2] * by (simp add: set_keys_policies_by_name)
qed

theorem updated_after_construction_witness:
  "local_init [learner ''A''] = Inr local_A \<and>
   updated local_A = {''A''} \<and> map_sum id dom (get_state local_A) = Inr {''A''} \<and>
   mp_init [learner ''A''] [(''A'', ''T'')] [(''A'', ())]
     = ([Pipe_open ''T'', Process_start ''T'' [''A''] [(''A'', 0)]], Inr mp_A) \<and>
   updated mp_A = {''A''} \<and> map_sum id dom (get_state mp_A) = Inr {''A''} \<and>
   mn_init [learner ''A''] [(''A'', ''T'')] ''g''
     = ([Proxy_open ''g'' 1, Send ''T'' (Init_policy_state [(''A'', 0)])], Inr mn_A) \<and>
   updated mn_A = {''A''} \<and> map_sum id dom (get_state mn_A) = Inr {''A''}"
  using updated_after_construction [of "[learner ''A'']" local_A "[(''A'', ''T'')]" "[(''A'', ())]"
      "[Pipe_open ''T'', Process_start ''T'' [''A''] [(''A'', 0)]]" mp_A "[(''A'', ''T'')]" "''g''"
      "[Proxy_open ''g'' 1, Send ''T'' (Init_policy_state [(''A'', 0)])]" mn_A]
    local_init_A mp_init_A mn_init_A
  by (simp add: learner_def)

text \<open>
  C9, as the code has it: a policy list with a policy that is no \<open>AbsCorePolicy\<close> makes
  every constructor raise \<open>ValueError\<close> (not \<open>ConfigurationError\<close>), and the check comes
  first: no pipe is opened, no process started, no proxy created and no message sent.
\<close>

theorem non_trainable_policy_rejected_before_any_effect:
  "\<exists>p \<in> set policies. \<not> core p \<Longrightarrow>
     local_init policies = Inl ValueError \<and>
     mp_init policies p2t create_policy_func_dict = ([], Inl ValueError) \<and>
     mn_init policies p2t' group_name = ([], Inl ValueError)"
  by (simp add: local_init_def mp_init_def mn_init_def abs_init_def list_ex_iff)


theorem non_trainable_policy_rejected_before_any_effect_witness:
  "(\<exists>p \<in> set [learner ''A'', null_policy ''B'']. \<not> core p) \<and>
   local_init [learner ''A'', null_policy ''B''] = Inl ValueError \<and>
   mp_init [learner ''A'', null_policy ''B''] [(''A'', ''T''), (''B'', ''T'')] [(''A'', ()), (''B'', ())]
     = ([], Inl ValueError) \<and>
   mn_init [learner ''A'', null_policy ''B''] [(''A'', ''T''), (''B'', ''T'')] ''g'' = ([], Inl ValueError)"
proof -
  have h: "\<exists>p \<in> set [learner ''A'', null_policy ''B'']. \<not> core p"
    by (simp add: null_policy_def)
  show ?thesis
    using h non_trainable_policy_rejected_before_any_effect [OF h] by simp
qed

text \<open>
  C9 as the specification states it fails: the error is not a \<open>ConfigurationError\<close>.
\<close>

theorem configuration_error_at_construction_counterexample:
  "(\<exists>p \<in> set [null_policy ''B'']. \<not> core p) \<and>
   local_init [null_policy ''B''] \<noteq> Inl ConfigurationError \<and>
   mp_init [null_policy ''B''] [(''B'', ''T'')] [(''B'', ())] \<noteq> ([], Inl ConfigurationError) \<and>
   mn_init [null_policy ''B''] [(''B'', ''T'')] ''g'' \<noteq> ([], Inl ConfigurationError)"
  by (simp add: init_defs null_policy_def)

text \<open>
  C10: a policy list with two policies of the same name, all of them \<open>AbsCorePolicy\<close>
  instances, is accepted: the local constructor returns a manager, and so do the other
  two whenever the names of \<open>policy2trainer\<close> are managed (and have creation
  functions), which are their conditions without duplicates too. The store maps the
  name to the later policy, and the earlier one is in no entry of the store.
\<close>

theorem duplicate_name_keeps_later_policy:
  assumes "list_all core (xs @ p1 # ys @ p2 # zs)" and "name p1 = name p2" and "p1 \<noteq> p2"
    and "\<forall>q \<in> set zs. name q \<noteq> name p2"
  shows "(\<exists>m. local_init (xs @ p1 # ys @ p2 # zs) = Inr m \<and>
            map_of (policy_dict m) (name p2) = Some p2 \<and> p1 \<notin> snd ` set (policy_dict m)) \<and>
         (set (keys p2t) \<subseteq> set (keys create_policy_func_dict) \<inter> name ` set (xs @ p1 # ys @ p2 # zs) \<longrightarrow>
            (\<exists>effs m. mp_init (xs @ p1 # ys @ p2 # zs) p2t create_policy_func_dict = (effs, Inr m) \<and>
               map_of (policy_dict m) (name p2) = Some p2 \<and> p1 \<notin> snd ` set (policy_dict m))) \<and>
         (set (keys p2t') \<subseteq> name ` set (xs @ p1 # ys @ p2 # zs) \<longrightarrow>
            (\<exists>effs m. mn_init (xs @ p1 # ys @ p2 # zs) p2t' group_name = (effs, Inr m) \<and>
               map_of (policy_dict m) (name p2) = Some p2 \<and> p1 \<notin> snd ` set (policy_dict m)))"
proof -
  let ?ps = "xs @ p1 # ys @ p2 # zs"
  have look: "map_of (policies_by_name ?ps) (name p2) = Some p2"
    using map_of_policies_by_name_last [of zs p2 "xs @ p1 # ys"] assms(4) by simp
  have gone: "p1 \<notin> snd ` set (policies_by_name ?ps)"
    using earlier_policy_discarded [OF look assms(2,3)] .
  obtain b where b: "abs_init ?ps = Inr b" using abs_init_all_core [OF assms(1)] by blast
  then have "policy_dict b = policies_by_name ?ps" using abs_init_Inr by blast
  with b look gone have local: "\<exists>m. local_init ?ps = Inr m \<and>
            map_of (policy_dict m) (name p2) = Some p2 \<and> p1 \<notin> snd ` set (policy_dict m)"
    by (simp add: local_init_def)
  have mp: "\<exists>effs m. mp_init ?ps p2t create_policy_func_dict = (effs, Inr m) \<and>
               map_of (policy_dict m) (name p2) = Some p2 \<and> p1 \<notin> snd ` set (policy_dict m)"
    if h: "set (keys p2t) \<subseteq> set (keys create_policy_func_dict) \<inter> name ` set ?ps"
  proof -
    obtain effs m where "mp_init ?ps p2t create_policy_func_dict = (effs, Inr m)"
      "policy_dict m = policies_by_name ?ps"
      using mp_init_succeeds [OF assms(1), of p2t create_policy_func_dict] h by blast
    with look gone show ?thesis by metis
  qed
  have mn: "\<exists>effs m. mn_init ?ps p2t' group_name = (effs, Inr m) \<and>
               map_of (policy_dict m) (name p2) = Some p2 \<and> p1 \<notin> snd ` set (policy_dict m)"
    if h: "set (keys p2t') \<subseteq> name ` set ?ps"
  proof -
    obtain effs m where "mn_init ?ps p2t' group_name = (effs, Inr m)"
      "policy_dict m = policies_by_name ?ps"
      using mn_init_succeeds [OF assms(1), of p2t' group_name] h by blast
    with look gone show ?thesis by metis
  qed
  from local mp mn show ?thesis by blast
qed


theorem duplicate_name_keeps_later_policy_witness:
  "list_all core ([] @ learner ''A'' # [] @ (learner ''A'')\<lparr>pstate := 7\<rparr> # [learner ''B'']) \<and>
   name (learner ''A'') = name ((learner ''A'')\<lparr>pstate := 7\<rparr>) \<and>
   learner ''A'' \<noteq> (learner ''A'')\<lparr>pstate := 7\<rparr> \<and>
   name (learner ''B'') \<noteq> name ((learner ''A'')\<lparr>pstate := 7\<rparr>) \<and>
   set (keys [(''A'', ''T'')]) \<subseteq> set (keys [(''A'', ())])
      \<inter> name ` set ([] @ learner ''A'' # [] @ (learner ''A'')\<lparr>pstate := 7\<rparr> # [learner ''B'']) \<and>
   (\<exists>m. local_init ([] @ learner ''A'' # [] @ (learner ''A'')\<lparr>pstate := 7\<rparr> # [learner ''B'']) = Inr m \<and>
        map_of (policy_dict m) ''A'' = Some ((learner ''A'')\<lparr>pstate := 7\<rparr>) \<and>
        learner ''A'' \<notin> snd ` set (policy_dict m)) \<and>
   (\<exists>effs m. mp_init ([] @ learner ''A'' # [] @ (learner ''A'')\<lparr>pstate := 7\<rparr> # [learner ''B''])
                [(''A'', ''T'')] [(''A'', ())] = (effs, Inr m) \<and>
        map_of (policy_dict m) ''A'' = Some ((learner ''A'')\<lparr>pstate := 7\<rparr>) \<and>
        learner ''A'' \<notin> snd ` set (policy_dict m)) \<and>
   (\<exists>effs m. mn_init ([] @ learner ''A'' # [] @ (learner ''A'')\<lparr>pstate := 7\<rparr> # [learner ''B''])
                [(''A'', ''T'')] ''g'' = (effs, Inr m) \<and>
        map_of (policy_dict m) ''A'' = Some ((learner ''A'')\<lparr>pstate := 7\<rparr>) \<and>
        learner ''A'' \<notin> snd ` set (policy_dict m))"
proof -
  let ?p1 = "learner ''A''" and ?p2 = "(learner ''A'')\<lparr>pstate := 7\<rparr>"
  have h1: "list_all core ([] @ ?p1 # [] @ ?p2 # [learner ''B''])"
    by (simp add: learner_def)
  have h2: "name ?p1 = name ?p2" by simp
  have h3: "?p1 \<noteq> ?p2" by (simp add: learner_def)
  have h4: "\<forall>q \<in> set [learner ''B'']. name q \<noteq> name ?p2" by (simp add: learner_def)
  have h5: "set (keys [(''A'', ''T'')]) \<subseteq> set (keys [(''A'', ())])
      \<inter> name ` set ([] @ ?p1 # [] @ ?p2 # [learner ''B''])"
    by (simp add: keys_def learner_def)
  have h6: "set (keys [(''A'', ''T'')]) \<subseteq> name ` set ([] @ ?p1 # [] @ ?p2 # [learner ''B''])"
    by (simp add: keys_def learner_def)
  have n: "name ?p2 = ''A''" by (simp add: learner_def)
  note t = duplicate_name_keeps_later_policy [OF h1 h2 h3 h4,
      of "[(''A'', ''T'')]" "[(''A'', ())]" "[(''A'', ''T'')]" "''g''"]
  from t h5 h6 have c: "(\<exists>m. local_init ([] @ ?p1 # [] @ ?p2 # [learner ''B'']) = Inr m \<and>
        map_of (policy_dict m) (name ?p2) = Some ?p2 \<and> ?p1 \<notin> snd ` set (policy_dict m)) \<and>
   (\<exists>effs m. mp_init ([] @ ?p1 # [] @ ?p2 # [learner ''B''])
                [(''A'', ''T'')] [(''A'', ())] = (effs, Inr m) \<and>
        map_of (policy_dict m) (name ?p2) = Some ?p2 \<and> ?p1 \<notin> snd ` set (policy_dict m)) \<and>
   (\<exists>effs m. mn_init ([] @ ?p1 # [] @ ?p2 # [learner ''B''])
                [(''A'', ''T'')] ''g'' = (effs, Inr m) \<and>
        map_of (policy_dict m) (name ?p2) = Some ?p2 \<and> ?p1 \<notin> snd ` set (policy_dict m))"
    by blast
  have h4': "name (learner ''B'') \<noteq> name ?p2" using h4 by simp
  from h1 h2 h3 h4' h5 c show ?thesis unfolding n by blast
qed

subsection \<open>The version counter and the update status\<close>

text \<open>
  C7: the version is 0 after construction; a single call of \<open>on_experiences\<close>,
  \<open>get_state\<close>, \<open>reset_update_status\<close> or \<open>exit\<close> leaves it as it is or adds 1 to
  it, whether the call returns or raises; so no sequence of calls decreases it.
\<close>

theorem version_starts_at_zero_and_never_decreases:
  "(local_init policies = Inr m0 \<longrightarrow> version m0 = 0) \<and>
   (mp_init policies p2t create_policy_func_dict = (effs1, Inr m1) \<longrightarrow> version m1 = 0) \<and>
   (mn_init policies p2t' group_name = (effs2, Inr m2) \<longrightarrow> version m2 = 0) \<and>
   (version (state_of (local_call m c)) = version m \<or>
    version (state_of (local_call m c)) = version m + 1) \<and>
   (version (state_of (mp_call ma c)) = version ma \<or>
    version (state_of (mp_call ma c)) = version ma + 1) \<and>
   (version (state_of (mn_call mb c)) = version mb \<or>
    version (state_of (mn_call mb c)) = version mb + 1) \<and>
   version m \<le> version (calls local_call m cs) \<and>
   version ma \<le> version (calls mp_call ma cs) \<and>
   version mb \<le> version (calls mn_call mb cs)"
proof -
  have i0: "local_init policies = Inr m0 \<longrightarrow> version m0 = 0"
    using abs_init_Inr [of policies m0] by (simp add: local_init_def)
  have i1: "mp_init policies p2t create_policy_func_dict = (effs1, Inr m1) \<longrightarrow> version m1 = 0"
    using mp_init_Inr [of policies p2t create_policy_func_dict effs1 m1] abs_init_Inr [of policies]
    by auto
  have i2: "mn_init policies p2t' group_name = (effs2, Inr m2) \<longrightarrow> version m2 = 0"
    using mn_init_Inr [of policies p2t' group_name effs2 m2] abs_init_Inr [of policies]
    by auto
  have s0: "version m \<le> version (calls local_call m cs)"
    by (rule calls_version_mono) (simp add: local_call_version)
  have s1: "version ma \<le> version (calls mp_call ma cs)"
    by (rule calls_version_mono) (rule mp_call_version_le)
  have s2: "version mb \<le> version (calls mn_call mb cs)"
    by (rule calls_version_mono) (rule mn_call_version_le)
  show ?thesis
    using i0 i1 i2 s0 s1 s2 local_call_version [of m c] mp_call_version [of ma c]
      mn_call_version [of mb c]
    by blast
qed

theorem version_starts_at_zero_and_never_decreases_witness:
  "local_init [learner ''A''] = Inr local_A \<and> version local_A = 0 \<and>
   mp_init [learner ''A''] [(''A'', ''T'')] [(''A'', ())]
     = ([Pipe_open ''T'', Process_start ''T'' [''A''] [(''A'', 0)]], Inr mp_A) \<and>
   version mp_A = 0 \<and>
   mn_init [learner ''A''] [(''A'', ''T'')] ''g''
     = ([Proxy_open ''g'' 1, Send ''T'' (Init_policy_state [(''A'', 0)])], Inr mn_A) \<and>
   version mn_A = 0 \<and>
   version mn_A \<le> version (calls mn_call mn_A
      [On_experiences [(''A'', 1)] (\<lambda>t ex. [(''A'', 1)]), Get_state, Reset_update_status,
       On_experiences [(''A'', 0)] (\<lambda>t ex. []), Exit])"
  using version_starts_at_zero_and_never_decreases [of "[learner ''A'']" local_A "[(''A'', ''T'')]" "[(''A'', ())]"
      "[Pipe_open ''T'', Process_start ''T'' [''A''] [(''A'', 0)]]" mp_A "[(''A'', ''T'')]" "''g''"
      "[Proxy_open ''g'' 1, Send ''T'' (Init_policy_state [(''A'', 0)])]" mn_A
      local_A Get_state mp_A mn_A
      "[On_experiences [(''A'', 1)] (\<lambda>t ex. [(''A'', 1)]), Get_state, Reset_update_status,
        On_experiences [(''A'', 0)] (\<lambda>t ex. []), Exit]"]
    local_init_A mp_init_A mn_init_A
  by simp

text \<open>
  C8: \<open>reset_update_status\<close> empties \<open>updated\<close> and changes nothing else: the version,
  the policy store and the fields of the subclass stay; \<open>get_state\<close> right after it
  returns the empty mapping.
\<close>

theorem reset_update_status_frame:
  "updated (reset_update_status m) = {} \<and>
   version (reset_update_status m) = version m \<and>
   policy_dict (reset_update_status m) = policy_dict m \<and>
   abs_policy_manager.more (reset_update_status m) = abs_policy_manager.more m \<and>
   get_state (reset_update_status m) = Inr Map.empty"
  by (simp add: reset_update_status_def get_state_def)

theorem reset_update_status_frame_witness:
  "updated mp_A = {''A''} \<and>
   map_sum id dom (get_state mp_A) = Inr {''A''} \<and>
   updated (reset_update_status mp_A) = {} \<and>
   version (reset_update_status mp_A) = 0 \<and>
   policy_dict (reset_update_status mp_A) = [(''A'', learner ''A'')] \<and>
   manager_end (reset_update_status mp_A) = [''T''] \<and>
   get_state (reset_update_status mp_A) = Inr Map.empty"
proof -
  have before: "updated mp_A = {''A''} \<and> map_sum id dom (get_state mp_A) = Inr {''A''}"
    using get_state_all_updated [of mp_A] by (simp add: mp_A_def keys_def)
  have fields: "version mp_A = 0 \<and> policy_dict mp_A = [(''A'', learner ''A'')]"
    by (simp add: mp_A_def)
  have sub: "manager_end (reset_update_status mp_A) = [''T'']"
    by (simp add: mp_A_def reset_update_status_def)
  show ?thesis
    using reset_update_status_frame [of mp_A] before fields sub by simp
qed

subsection \<open>on_experiences\<close>

text \<open>
  C1 at a failing input. The local manager has been reset, its one policy is given a
  positive experience and reports a change: the policy is added to \<open>updated\<close>, and
  the version is 0 as before. \<open>LocalPolicyManager.on_experiences\<close> has no statement
  that writes the version; the two distributed managers have one
  (\<open>mp_version_after_change\<close>, \<open>mn_version_after_change\<close>).
\<close>

theorem local_version_not_incremented:
  "fst (policy_on_experiences (learner ''A'') 1) \<and>
   version (reset_update_status local_A) = 0 \<and>
   local_on_experiences (reset_update_status local_A) [(''A'', 1)]
     = Returned \<lparr>policy_dict = [(''A'', (learner ''A'')\<lparr>pstate := 1\<rparr>)], updated = {''A''}, version = 0\<rparr>"
  by (simp add: local_A_def reset_update_status_def policy_on_experiences_def learner_def)

text \<open>
  C3 as stated fails: the multi-node manager as constructed, called with the empty
  batch, sends nothing and moves the version from 0 to 1, since \<open>updated\<close> is not
  empty.
\<close>

theorem empty_batch_counterexample:
  "version mn_A = 0 \<and>
   mn_on_experiences mn_A [] (\<lambda>t ex. []) = ([], Returned (mn_A\<lparr>version := 1\<rparr>))"
  by (simp add: mn_A_def mn_on_experiences_def scatter_def bump_version_def)

text \<open>
  C3, as the code has it: with the empty batch the local manager returns unchanged; the
  multi-node manager sends nothing, returns, keeps \<open>updated\<close> and the policy store,
  and adds 1 to the version exactly when \<open>updated\<close> is not empty.
\<close>

theorem empty_batch:
  "local_on_experiences m [] = Returned m \<and>
   mn_on_experiences mb [] recv = ([], Returned (bump_version mb)) \<and>
   updated (bump_version mb) = updated mb \<and>
   policy_dict (bump_version mb) = policy_dict mb \<and>
   version (bump_version mb) = (if updated mb = {} then version mb else version mb + 1)"
  by (simp add: mn_on_experiences_def scatter_def bump_version_def)




lemma partition_batch_succeeds:
  "set (keys batch) \<subseteq> set (keys p2t) \<Longrightarrow> \<not> isl (partition_batch p2t batch acc)"
proof (induction batch arbitrary: acc)
  case Nil
  show ?case by simp
next
  case (Cons a batch)
  obtain n e where a: "a = (n, e)" by (cases a)
  with Cons.prems have "n \<in> set (keys p2t)" by (simp add: keys_def)
  then obtain t where "map_of p2t n = Some t"
    by (metis keys_def map_of_eq_None_iff not_Some_eq set_map)
  moreover from Cons.prems have "set (keys batch) \<subseteq> set (keys p2t)" by (simp add: keys_def)
  ultimately show ?case using a Cons.IH by simp
qed




subsection \<open>Batches with a key that is not managed\<close>

text \<open>
  No method compares the keys of a batch with the managed names. The local manager and
  the multi-node manager look every key of the batch up in a dictionary; the names of
  the store and the assignment of the multi-node manager stay what the constructor made
  them.
\<close>

lemma set_keys_update_present:
  "map_of d k = Some v \<Longrightarrow> set (keys (AList.update k v' d)) = set (keys d)"
proof -
  assume "map_of d k = Some v"
  then have "k \<in> set (keys d)" by (auto simp: keys_def dest: map_of_SomeD intro: rev_image_eqI)
  then show ?thesis by (auto simp: set_keys_update)
qed

lemma local_on_experiences_keys:
  "set (keys (policy_dict (state_of (local_on_experiences m b)))) = set (keys (policy_dict m))"
proof (induction m b rule: local_on_experiences.induct)
  case (1 m)
  show ?case by simp
next
  case (2 m policy_name exp rest)
  show ?case
  proof (cases "map_of (policy_dict m) policy_name")
    case None
    then show ?thesis by simp
  next
    case (Some p)
    obtain changed p' where r: "policy_on_experiences p exp = (changed, p')"
      by (cases "policy_on_experiences p exp")
    show ?thesis
    proof (cases "core p")
      case True
      with 2(1) [OF Some True r [symmetric]] Some r show ?thesis
        by (simp add: set_keys_update_present)
    next
      case False
      with 2(2) [OF Some False] Some show ?thesis by simp
    qed
  qed
qed

lemma local_unmanaged_key:
  "k \<in> set (keys b) \<Longrightarrow> k \<notin> set (keys (policy_dict m)) \<Longrightarrow>
   raised (local_on_experiences m b) = Some KeyError"
proof (induction m b rule: local_on_experiences.induct)
  case (1 m)
  then show ?case by (simp add: keys_def)
next
  case (2 m policy_name exp rest)
  show ?case
  proof (cases "map_of (policy_dict m) policy_name")
    case None
    then show ?thesis by simp
  next
    case (Some p)
    then have "policy_name \<in> set (keys (policy_dict m))"
      by (auto simp: keys_def dest: map_of_SomeD intro: rev_image_eqI)
    with 2(4) have "k \<noteq> policy_name" by blast
    with 2(3) have in_rest: "k \<in> set (keys rest)" by (simp add: keys_def)
    obtain changed p' where r: "policy_on_experiences p exp = (changed, p')"
      by (cases "policy_on_experiences p exp")
    show ?thesis
    proof (cases "core p")
      case True
      have "k \<notin> set (keys (AList.update policy_name p' (policy_dict m)))"
        using 2(4) Some by (simp add: set_keys_update_present)
      with 2(1) [OF Some True r [symmetric] in_rest] Some r True show ?thesis by simp
    next
      case False
      with 2(2) [OF Some False in_rest 2(4)] Some show ?thesis by simp
    qed
  qed
qed

lemma partition_batch_unmanaged:
  "k \<in> set (keys b) \<Longrightarrow> k \<notin> set (keys p2t) \<Longrightarrow> partition_batch p2t b acc = Inl KeyError"
proof (induction b arbitrary: acc)
  case Nil
  then show ?case by (simp add: keys_def)
next
  case (Cons a b)
  obtain n e where a: "a = (n, e)" by (cases a)
  show ?case
  proof (cases "map_of p2t n")
    case None
    with a show ?thesis by simp
  next
    case (Some t)
    then have "n \<in> set (keys p2t)"
      by (auto simp: keys_def dest: map_of_SomeD intro: rev_image_eqI)
    with Cons.prems(2) have "k \<noteq> n" by blast
    with Cons.prems(1) a have "k \<in> set (keys b)" by (simp add: keys_def)
    with Cons.IH Cons.prems(2) a Some show ?thesis by simp
  qed
qed


lemma merge_reply_keys:
  "set (keys (policy_dict (state_of (merge_reply r m)))) = set (keys (policy_dict m))"
proof (induction r m rule: merge_reply.induct)
  case (1 m)
  show ?case by simp
next
  case (2 policy_name policy_state rest m)
  show ?case
  proof (cases "map_of (policy_dict m) policy_name")
    case None
    then show ?thesis by simp
  next
    case (Some p)
    with 2 [OF Some] show ?thesis by (simp add: set_keys_update_present)
  qed
qed

lemma merge_reply_policy2trainer:
  "mn_policy2trainer (state_of (merge_reply r m)) = mn_policy2trainer m"
  by (induction r m rule: merge_reply.induct) (simp_all split: option.splits)

lemma merge_replies_keys:
  "set (keys (policy_dict (state_of (merge_replies rs m)))) = set (keys (policy_dict m))"
proof (induction rs arbitrary: m)
  case Nil
  show ?case by simp
next
  case (Cons r rs)
  show ?case
  proof (cases "merge_reply r m")
    case (Returned m')
    then show ?thesis using Cons [of m'] merge_reply_keys [of r m] by simp
  next
    case (Raised e m')
    then show ?thesis using merge_reply_keys [of r m] by simp
  qed
qed

lemma merge_replies_policy2trainer:
  "mn_policy2trainer (state_of (merge_replies rs m)) = mn_policy2trainer m"
proof (induction rs arbitrary: m)
  case Nil
  show ?case by simp
next
  case (Cons r rs)
  show ?case
  proof (cases "merge_reply r m")
    case (Returned m')
    then show ?thesis using Cons [of m'] merge_reply_policy2trainer [of r m] by simp
  next
    case (Raised e m')
    then show ?thesis using merge_reply_policy2trainer [of r m] by simp
  qed
qed

lemma finish_frame:
  "policy_dict (state_of (finish r)) = policy_dict (state_of r) \<and>
   mn_policy2trainer (state_of (finish r)) = mn_policy2trainer (state_of r)"
  by (cases r) (simp_all add: bump_version_def)

lemma mn_on_experiences_frame:
  "set (keys (policy_dict (state_of (snd (mn_on_experiences m b recv))))) = set (keys (policy_dict m)) \<and>
   mn_policy2trainer (state_of (snd (mn_on_experiences m b recv))) = mn_policy2trainer m"
proof (cases "partition_batch (mn_policy2trainer m) b []")
  case (Inl e)
  then show ?thesis by (simp add: mn_on_experiences_def)
next
  case (Inr d)
  then show ?thesis
    using finish_frame [of "merge_replies (scatter recv d) m"]
    by (simp add: mn_on_experiences_def merge_replies_keys merge_replies_policy2trainer)
qed

lemma mn_call_frame:
  "set (keys (policy_dict (state_of (mn_call m c)))) = set (keys (policy_dict m)) \<and>
   mn_policy2trainer (state_of (mn_call m c)) = mn_policy2trainer m"
  by (cases c) (simp_all add: mn_on_experiences_frame reset_update_status_def split: sum.splits)

lemma mn_calls_frame:
  "set (keys (policy_dict (calls mn_call m cs))) = set (keys (policy_dict m)) \<and>
   mn_policy2trainer (calls mn_call m cs) = mn_policy2trainer m"
proof (induction cs arbitrary: m)
  case Nil
  show ?case by simp
next
  case (Cons c cs)
  show ?case using Cons [of "state_of (mn_call m c)"] mn_call_frame [of m c] by simp
qed

lemma mn_init_assigned_managed:
  assumes "mn_init ps p2t g = (effs, Inr m)"
  shows "set (keys (mn_policy2trainer m)) \<subseteq> set (keys (policy_dict m))"
proof -
  obtain b where "abs_init ps = Inr b"
    and b: "policy_dict m = policy_dict b" "mn_policy2trainer m = p2t"
    "snd (send_init_states (policy_dict b) (build_trainer2policies p2t)) = None"
    using mn_init_Inr [OF assms] by blast
  from b(3) have "set (keys p2t) \<subseteq> set (keys (policy_dict b))"
    by (simp add: send_init_states_None names_of_build_trainer2policies)
  with b(1,2) show ?thesis by simp
qed

lemma mn_unmanaged_key:
  assumes "mn_init ps p2t g = (effs, Inr m0)" and "k \<in> set (keys batch)"
    and "k \<notin> set (keys (policy_dict (calls mn_call m0 cs)))"
  shows "mn_on_experiences (calls mn_call m0 cs) batch recv = ([], Raised KeyError (calls mn_call m0 cs))"
proof -
  let ?m = "calls mn_call m0 cs"
  have "set (keys (mn_policy2trainer ?m)) \<subseteq> set (keys (policy_dict ?m))"
    using mn_init_assigned_managed [OF assms(1)] mn_calls_frame [of m0 cs] by simp
  with assms(3) have "k \<notin> set (keys (mn_policy2trainer ?m))" by blast
  with assms(2) have "partition_batch (mn_policy2trainer ?m) batch [] = Inl KeyError"
    by (rule partition_batch_unmanaged)
  then show ?thesis by (simp add: mn_on_experiences_def)
qed

text \<open>
  C5, as the code has it: a batch with a key that is no managed policy name makes
  \<open>on_experiences\<close> of the local manager raise \<open>KeyError\<close>, and makes
  \<open>on_experiences\<close> of a multi-node manager, in any state it reaches from its
  constructor, raise \<open>KeyError\<close> before anything is sent or changed.
\<close>

theorem unmanaged_key_raises_key_error:
  "(k \<in> set (keys batch) \<longrightarrow> k \<notin> set (keys (policy_dict m)) \<longrightarrow>
      raised (local_on_experiences m batch) = Some KeyError) \<and>
   (mn_init policies p2t group_name = (effs, Inr m0) \<longrightarrow> k \<in> set (keys batch) \<longrightarrow>
    k \<notin> set (keys (policy_dict (calls mn_call m0 cs))) \<longrightarrow>
      mn_on_experiences (calls mn_call m0 cs) batch recv
        = ([], Raised KeyError (calls mn_call m0 cs)))"
  using local_unmanaged_key [of k batch m] mn_unmanaged_key [of policies p2t group_name effs m0 k batch cs recv]
  by blast

theorem unmanaged_key_raises_key_error_witness:
  "''Z'' \<in> set (keys [(''A'', 1::nat), (''Z'', 0)]) \<and>
   ''Z'' \<notin> set (keys (policy_dict local_A)) \<and>
   raised (local_on_experiences local_A [(''A'', 1), (''Z'', 0)]) = Some KeyError \<and>
   mn_init [learner ''A''] [(''A'', ''T'')] ''g''
     = ([Proxy_open ''g'' 1, Send ''T'' (Init_policy_state [(''A'', 0)])], Inr mn_A) \<and>
   ''Z'' \<notin> set (keys (policy_dict (calls mn_call mn_A [Reset_update_status]))) \<and>
   mn_on_experiences (calls mn_call mn_A [Reset_update_status]) [(''A'', 1), (''Z'', 0)] (\<lambda>t ex. [])
     = ([], Raised KeyError (calls mn_call mn_A [Reset_update_status]))"
proof -
  have h1: "''Z'' \<in> set (keys [(''A'', 1::nat), (''Z'', 0)])" by (simp add: keys_def)
  have h2: "''Z'' \<notin> set (keys (policy_dict local_A))" by (simp add: keys_def local_A_def)
  have h3: "''Z'' \<notin> set (keys (policy_dict (calls mn_call mn_A [Reset_update_status])))"
    by (simp add: keys_def mn_A_def reset_update_status_def)
  note t = unmanaged_key_raises_key_error [of "''Z''" "[(''A'', 1::nat), (''Z'', 0)]" local_A
      "[learner ''A'']" "[(''A'', ''T'')]" "''g''"
      "[Proxy_open ''g'' 1, Send ''T'' (Init_policy_state [(''A'', 0)])]" mn_A
      "[Reset_update_status]" "\<lambda>t ex. []"]
  from t h1 h2 h3 mn_init_A show ?thesis by blast
qed

text \<open>
  C5 as stated fails: the local manager raises \<open>KeyError\<close>, not
  \<open>ConfigurationError\<close>, and the multi-process manager, which reads the batch only at
  the names of its trainers, returns without an error.
\<close>

theorem unmanaged_key_counterexample:
  "''Z'' \<notin> set (keys (policy_dict local_A)) \<and>
   local_on_experiences local_A [(''Z'', 0)] = Raised KeyError local_A \<and>
   raised (local_on_experiences local_A [(''Z'', 0)]) \<noteq> Some ConfigurationError \<and>
   ''Z'' \<notin> set (keys (policy_dict mp_A)) \<and>
   raised (snd (mp_on_experiences mp_A [(''A'', 0), (''Z'', 0)] (\<lambda>t ex. []))) = None"
  by (simp add: keys_def local_A_def mp_A_def mp_on_experiences_def default_get_def dict_get_def)

subsection \<open>Partition of a batch by trainer\<close>

text \<open>
  What the first loop of \<open>MultiNodePolicyManager.on_experiences\<close> builds, for a batch
  whose keys are all assigned: one message for each trainer that owns a key of the
  batch and for no other trainer, holding the batch entries of that trainer's policies
  and nothing else.
\<close>

lemma default_get_update:
  "default_get (AList.update k v d) k' = (if k' = k then v else default_get d k')"
  by (simp add: default_get_def AList.update_conv')

lemma partition_batch_content:
  assumes "distinct (keys batch)" and "partition_batch p2t batch acc = Inr d"
  shows "set (keys d) = set (keys acc) \<union> {t. \<exists>n \<in> set (keys batch). map_of p2t n = Some t} \<and>
         (\<forall>t n. map_of (default_get d t) n
            = (if n \<in> set (keys batch) \<and> map_of p2t n = Some t then map_of batch n
               else map_of (default_get acc t) n))"
  using assms
proof (induction batch arbitrary: acc)
  case Nil
  then show ?case by (simp add: keys_def)
next
  case (Cons a batch)
  obtain n0 e where a: "a = (n0, e)" by (cases a)
  from Cons.prems(1) a have dist: "distinct (keys batch)" and fresh: "n0 \<notin> set (keys batch)"
    by (simp_all add: keys_def)
  obtain t0 where t0: "map_of p2t n0 = Some t0"
    using Cons.prems(2) a by (cases "map_of p2t n0") simp_all
  let ?acc = "AList.update t0 (AList.update n0 e (default_get acc t0)) acc"
  from Cons.prems(2) a t0 have "partition_batch p2t batch ?acc = Inr d" by simp
  from Cons.IH [OF dist this]
  have k: "set (keys d) = set (keys ?acc) \<union> {t. \<exists>n \<in> set (keys batch). map_of p2t n = Some t}"
    and c: "\<And>t n. map_of (default_get d t) n
            = (if n \<in> set (keys batch) \<and> map_of p2t n = Some t then map_of batch n
               else map_of (default_get ?acc t) n)"
    by simp_all
  have k': "set (keys d) = set (keys acc) \<union> {t. \<exists>n \<in> set (keys (a # batch)). map_of p2t n = Some t}"
  proof -
    have ku: "set (keys ?acc) = insert t0 (set (keys acc))" by (rule set_keys_update)
    have kb: "set (keys (a # batch)) = insert n0 (set (keys batch))"
      using a by (simp add: keys_def)
    show ?thesis unfolding k ku kb using t0 by auto
  qed
  have c': "map_of (default_get d t) n
            = (if n \<in> set (keys (a # batch)) \<and> map_of p2t n = Some t then map_of (a # batch) n
               else map_of (default_get acc t) n)" for t n
  proof (cases "n = n0")
    case True
    with fresh have "n \<notin> set (keys batch)" by simp
    with True a t0 show ?thesis
      unfolding c by (simp add: default_get_update AList.update_conv' keys_def)
  next
    case False
    with a show ?thesis
      unfolding c by (simp add: default_get_update AList.update_conv' keys_def)
  qed
  from k' c' show ?case by blast
qed

lemma distinct_partition_batch:
  "distinct (keys acc) \<Longrightarrow> partition_batch p2t batch acc = Inr d \<Longrightarrow> distinct (keys d)"
proof (induction batch arbitrary: acc)
  case Nil
  then show ?case by simp
next
  case (Cons a batch)
  obtain n0 e where a: "a = (n0, e)" by (cases a)
  obtain t0 where t0: "map_of p2t n0 = Some t0"
    using Cons.prems(2) a by (cases "map_of p2t n0") simp_all
  let ?acc = "AList.update t0 (AList.update n0 e (default_get acc t0)) acc"
  have "distinct (keys ?acc)" using Cons.prems(1) by (simp add: keys_def AList.distinct_update)
  moreover from Cons.prems(2) a t0 have "partition_batch p2t batch ?acc = Inr d" by simp
  ultimately show ?case by (rule Cons.IH)
qed

lemma mn_partition:
  assumes "distinct (keys batch)" and "set (keys batch) \<subseteq> set (keys (mn_policy2trainer m))"
  shows "distinct (keys (fst (mn_on_experiences m batch recv))) \<and>
         set (keys (fst (mn_on_experiences m batch recv)))
           = {t. \<exists>n \<in> set (keys batch). map_of (mn_policy2trainer m) n = Some t} \<and>
         (\<forall>t n. map_of (default_get (fst (mn_on_experiences m batch recv)) t) n
            = (if map_of (mn_policy2trainer m) n = Some t then map_of batch n else None))"
proof -
  have "\<not> isl (partition_batch (mn_policy2trainer m) batch [])"
    using assms(2) by (rule partition_batch_succeeds)
  then obtain d where d: "partition_batch (mn_policy2trainer m) batch [] = Inr d"
    by (cases "partition_batch (mn_policy2trainer m) batch []") simp_all
  then have f: "fst (mn_on_experiences m batch recv) = d" by (simp add: mn_on_experiences_def)
  have nb: "map_of batch n = None" if "n \<notin> set (keys batch)" for n
    using that by (simp add: map_of_eq_None_iff keys_def)
  have "distinct (keys d)" using distinct_partition_batch [OF _ d] by (simp add: keys_def)
  moreover have "set (keys d) = {t. \<exists>n \<in> set (keys batch). map_of (mn_policy2trainer m) n = Some t}"
    using partition_batch_content [OF assms(1) d] by (simp add: keys_def)
  moreover have "map_of (default_get d t) n
            = (if map_of (mn_policy2trainer m) n = Some t then map_of batch n else None)" for t n
    using partition_batch_content [OF assms(1) d] nb [of n] by (simp add: default_get_def)
  ultimately show ?thesis unfolding f by blast
qed

text \<open>
  C2 at two failing inputs, in the scenario of three policies on two trainers. The
  multi-process manager builds the experiences of a trainer from all the names the
  trainer owns: with the batch for \<open>''A''\<close> and \<open>''C''\<close> the lookup of \<open>''B''\<close>
  raises \<open>KeyError\<close> before anything is sent; with the batch for \<open>''A''\<close> and
  \<open>''B''\<close> the trainer \<open>''T1''\<close> gets its command and the lookup of \<open>''C''\<close> for
  \<open>''T2''\<close>, which has no entry in the batch, raises \<open>KeyError\<close>. The multi-node
  manager, on the same batches, sends each trainer that owns a key of the batch the
  entries of its policies and contacts no other trainer (\<open>mn_partition\<close> in general).
\<close>

theorem mp_absent_policy_raises:
  "snd (mp_init [learner ''A'', learner ''B'', learner ''C'']
          [(''A'', ''T1''), (''B'', ''T1''), (''C'', ''T2'')] [(''A'', ()), (''B'', ()), (''C'', ())])
     = Inr mp_ABC \<and>
   mp_on_experiences mp_ABC [(''A'', 1), (''C'', 0)] recv = ([], Raised KeyError mp_ABC) \<and>
   mp_on_experiences mp_ABC [(''A'', 1), (''B'', 0)] recv
     = ([(''T1'', [(''A'', 1), (''B'', 0)])], Raised KeyError mp_ABC) \<and>
   snd (mn_init [learner ''A'', learner ''B'', learner ''C'']
          [(''A'', ''T1''), (''B'', ''T1''), (''C'', ''T2'')] ''g'')
     = Inr mn_ABC \<and>
   fst (mn_on_experiences mn_ABC [(''A'', 1), (''C'', 0)] recv)
     = [(''T1'', [(''A'', 1)]), (''T2'', [(''C'', 0)])] \<and>
   fst (mn_on_experiences mn_ABC [(''A'', 1), (''B'', 0)] recv)
     = [(''T1'', [(''A'', 1), (''B'', 0)])]"
proof -
  have i1: "snd (mp_init [learner ''A'', learner ''B'', learner ''C'']
          [(''A'', ''T1''), (''B'', ''T1''), (''C'', ''T2'')] [(''A'', ()), (''B'', ()), (''C'', ())])
     = Inr mp_ABC"
    by (simp add: init_defs mp_ABC_def learner_def insert_commute)
  have i2: "snd (mn_init [learner ''A'', learner ''B'', learner ''C'']
          [(''A'', ''T1''), (''B'', ''T1''), (''C'', ''T2'')] ''g'')
     = Inr mn_ABC"
    by (simp add: init_defs mn_ABC_def learner_def insert_commute)
  have s1: "mp_on_experiences mp_ABC [(''A'', 1), (''C'', 0)] recv = ([], Raised KeyError mp_ABC)"
    by (simp add: mp_on_experiences_def mp_ABC_def default_get_def dict_get_def)
  have s2: "mp_on_experiences mp_ABC [(''A'', 1), (''B'', 0)] recv
     = ([(''T1'', [(''A'', 1), (''B'', 0)])], Raised KeyError mp_ABC)"
    by (simp add: mp_on_experiences_def mp_ABC_def default_get_def dict_get_def)
  have s3: "fst (mn_on_experiences mn_ABC [(''A'', 1), (''C'', 0)] recv)
     = [(''T1'', [(''A'', 1)]), (''T2'', [(''C'', 0)])]"
    by (simp add: mn_on_experiences_def mn_ABC_def default_get_def)
  have s4: "fst (mn_on_experiences mn_ABC [(''A'', 1), (''B'', 0)] recv)
     = [(''T1'', [(''A'', 1), (''B'', 0)])]"
    by (simp add: mn_on_experiences_def mn_ABC_def default_get_def)
  from i1 i2 s1 s2 s3 s4 show ?thesis by simp
qed

subsection \<open>Calls in which no change is reported\<close>










lemma mp_adds_the_names_it_reads:
  assumes "mp_on_experiences m batch recv = (sent, Returned m')"
  shows "updated m' = updated m \<union> (\<Union>(t, ex) \<in> set sent. set (keys (recv t ex)))"
proof -
  obtain s r where sr: "mp_send (trainer2policies m) batch (manager_end m) = (s, r)"
    by (cases "mp_send (trainer2policies m) batch (manager_end m)")
  have f: "finish (merge_replies (map (\<lambda>(t, ex). recv t ex) sent) m) = Returned m'"
  proof (cases r)
    case None
    have "mp_on_experiences m batch recv = (s, finish (merge_replies (map (\<lambda>(t, ex). recv t ex) s) m))"
      unfolding mp_on_experiences_def sr None by simp
    with assms show ?thesis by (metis prod.inject)
  next
    case (Some e)
    have "mp_on_experiences m batch recv = (s, Raised e m)"
      unfolding mp_on_experiences_def sr Some by simp
    with assms show ?thesis by simp
  qed
  then obtain m1 where m1: "merge_replies (map (\<lambda>(t, ex). recv t ex) sent) m = Returned m1"
    and m': "m' = bump_version m1"
    using finish_Returned by blast
  have "updated m1 = updated m \<union> (\<Union>r \<in> set (map (\<lambda>(t, ex). recv t ex) sent). set (keys r))"
    using m1 by (rule merge_replies_updated)
  also have "(\<Union>r \<in> set (map (\<lambda>(t, ex). recv t ex) sent). set (keys r))
      = (\<Union>(t, ex) \<in> set sent. set (keys (recv t ex)))"
    by (simp add: case_prod_beta)
  finally show ?thesis unfolding m' by (simp add: bump_version_def)
qed



end
